theory Spec2Isabelle
  imports Main "HOL-Library.Word" "HOL-Library.Signed_Division"
begin

unbundle bit_operations_syntax

section \<open>The snowflake identifier generator (snowflake/snowflake.go)\<close>

text \<open>
  Go's \<open>int64\<close> is a 64-bit word: \<open>+\<close>, \<open>-\<close>, \<open>*\<close> and \<open><<\<close> wrap around, the
  comparisons \<open><\<close>, \<open><=\<close>, \<open>>\<close> are the signed ones (\<open><s\<close>, \<open>\<le>s\<close>), \<open>>>\<close> is the
  arithmetic shift (\<open>signed_drop_bit\<close>), \<open>&\<close> is \<open>AND\<close>, \<open>|\<close> is \<open>OR\<close>, binary \<open>^\<close>
  is \<open>XOR\<close> and \<open>/\<close> truncates towards zero (\<open>sdiv\<close> on the signed value).
\<close>

type_synonym int64 = "64 word"

subsection \<open>Constants (lines 20-37)\<close>

definition EPOCH :: int64 where
  "EPOCH = 1577808000000"

definition BIT_TIMESTAMP :: nat where
  "BIT_TIMESTAMP = 41"

definition BIT_DATACENTER :: nat where
  "BIT_DATACENTER = 5"

definition BIT_WORKER :: nat where
  "BIT_WORKER = 5"

definition BIT_SEQUENCE :: nat where
  "BIT_SEQUENCE = 12"

text \<open>
  The maxima are constant expressions over untyped integer constants, evaluated exactly
  and then converted: \<open>int64(-1 ^ (-1 << BIT))\<close>.
\<close>

definition MAX_TIMESTAMP :: int64 where
  "MAX_TIMESTAMP = word_of_int ((- 1) XOR push_bit BIT_TIMESTAMP (- 1))"

definition MAX_DATACENTER_ID :: int64 where
  "MAX_DATACENTER_ID = word_of_int ((- 1) XOR push_bit BIT_DATACENTER (- 1))"

definition MAX_WORKER_ID :: int64 where
  "MAX_WORKER_ID = word_of_int ((- 1) XOR push_bit BIT_WORKER (- 1))"

definition MAX_SEQUENCE_ID :: int64 where
  "MAX_SEQUENCE_ID = word_of_int ((- 1) XOR push_bit BIT_SEQUENCE (- 1))"

definition MAX_BACKWARD_MS :: int64 where
  "MAX_BACKWARD_MS = 3"

definition SHIFT_TIMESTAMP :: nat where
  "SHIFT_TIMESTAMP = BIT_SEQUENCE + BIT_WORKER + BIT_DATACENTER"

definition SHIFT_DATACENTER :: nat where
  "SHIFT_DATACENTER = BIT_SEQUENCE + BIT_WORKER"

definition SHIFT_WORKER :: nat where
  "SHIFT_WORKER = BIT_SEQUENCE"

text \<open>\<open>time.Millisecond\<close>, a \<open>time.Duration\<close>: an \<open>int64\<close> count of nanoseconds.\<close>

definition Millisecond :: int64 where
  "Millisecond = 1000000"

subsection \<open>Formatting with the verb \<open>%d\<close>\<close>

definition digit_char :: "nat \<Rightarrow> char" where
  "digit_char n = ''0123456789'' ! n"

fun decimal :: "nat \<Rightarrow> string" where
  "decimal n = (if n < 10 then [digit_char n] else decimal (n div 10) @ [digit_char (n mod 10)])"

declare decimal.simps [simp del]

text \<open>\<open>%d\<close> applied to an \<open>int64\<close>: the signed value in base 10, with a minus sign.\<close>

definition fmt_d :: "int64 \<Rightarrow> string" where
  "fmt_d w = (if sint w < 0 then CHR ''-'' # decimal (nat (- sint w)) else decimal (nat (sint w)))"

subsection \<open>The generator (lines 39-66)\<close>

text \<open>
  The struct \<open>SnowFlake\<close>. Its mutex is represented by running the calls one after the
  other, and its field \<open>epoch\<close> is read by \<open>GetNow\<close> only, through \<open>time.Since\<close>, whose
  results are an input of the model (see below); neither is a field of the record.
\<close>

record SnowFlake =
  timestamp :: int64
  datacenterId :: int64
  workerId :: int64
  sequence :: int64

text \<open>
  \<open>New\<close> returns the pair \<open>(*SnowFlake, error)\<close>; \<open>None\<close> is \<open>nil\<close>, and an error is
  the text \<open>fmt.Errorf\<close> builds.
\<close>

definition New :: "int64 \<Rightarrow> int64 \<Rightarrow> SnowFlake option \<times> string option" where
  "New dcId machineId =
     (if dcId <s 0 \<or> MAX_DATACENTER_ID <s dcId then
        (None, Some (''datacenterId must be between 0 and '' @ fmt_d (MAX_DATACENTER_ID - 1)))
      else if machineId <s 0 \<or> MAX_WORKER_ID <s machineId then
        (None, Some (''machineId must be between 0 and '' @ fmt_d (MAX_WORKER_ID - 1)))
      else
        (Some \<lparr>timestamp = 0, datacenterId = dcId, workerId = machineId, sequence = 0\<rparr>,
         None))"

subsection \<open>Reading the clock (lines 130-133)\<close>

text \<open>
  \<open>GetNow\<close> is \<open>time.Since(s.epoch).Nanoseconds() / 1000000\<close>. The duration that
  \<open>time.Since\<close> returns is the input: an \<open>int64\<close> of nanoseconds. A clock is the
  sequence of these durations, \<open>since k\<close> being the one the \<open>k\<close>-th reading returns, and
  the calls thread the number of readings taken so far.
\<close>

type_synonym clock = "nat \<Rightarrow> int64"

definition GetNow :: "int64 \<Rightarrow> int64" where
  "GetNow d = word_of_int (sint d sdiv 1000000)"

subsection \<open>Decoding (lines 138-142)\<close>

definition GetDeviceID :: "int64 \<Rightarrow> int64 \<times> int64" where
  "GetDeviceID sid =
     (signed_drop_bit SHIFT_DATACENTER sid AND MAX_DATACENTER_ID,
      signed_drop_bit SHIFT_WORKER sid AND MAX_WORKER_ID)"

subsection \<open>NextID (lines 71-125)\<close>

text \<open>
  A call either returns an identifier or panics with the text of its error. The result of
  a call holds, besides, the generator as the call leaves it, the number of clock readings
  taken so far and the durations handed to \<open>time.Sleep\<close>.
\<close>

datatype outcome = Returned int64 | Panicked string

text \<open>
  Lines 77-98, after the first reading \<open>now\<close>: the check for a clock that moved backwards.
  \<open>Inl\<close> is the panic; \<open>Inr\<close> carries the value of \<open>now\<close> the call goes on with. Both
  carry the number of readings taken and the durations slept.
\<close>

definition backward_check ::
  "clock \<Rightarrow> SnowFlake \<Rightarrow> int64 \<Rightarrow> nat \<Rightarrow> (string \<times> nat \<times> int64 list) + (int64 \<times> nat \<times> int64 list)"
where
  "backward_check since s now k =
     (if now <s timestamp s then
        (let offset = timestamp s - now in
         if offset \<le>s MAX_BACKWARD_MS then
           (let slept = [Millisecond * push_bit 1 offset];
                now' = GetNow (since k)
            in if now' <s timestamp s then
                 Inl (''Clock moved backwards. Refusing to generate id for ''
                        @ fmt_d (timestamp s - now') @ '' milliseconds'', Suc k, slept)
               else Inr (now', Suc k, slept))
         else
           Inl (''Clock moved backwards. Refusing to generate id for ''
                  @ fmt_d (timestamp s - now) @ '' milliseconds'', k, []))
      else Inr (now, k, []))"

text \<open>
  Lines 105-107, \<open>for now <= s.timestamp { now = s.GetNow() }\<close>: the loop ends only when
  a reading exceeds the timestamp, so it is a partial function; \<open>None\<close> is a loop that
  never ends.
\<close>

partial_function (option) spin :: "clock \<Rightarrow> int64 \<Rightarrow> int64 \<Rightarrow> nat \<Rightarrow> (int64 \<times> nat) option" where
  "spin since ts now k =
     (if now \<le>s ts then spin since ts (GetNow (since k)) (Suc k) else Some (now, k))"

text \<open>Lines 101-112: the sequence number, and the wait for the next millisecond.\<close>

definition next_sequence ::
  "clock \<Rightarrow> SnowFlake \<Rightarrow> int64 \<Rightarrow> nat \<Rightarrow> (SnowFlake \<times> int64 \<times> nat) option"
where
  "next_sequence since s now k =
     (if timestamp s = now then
        (let s1 = s\<lparr>sequence := (sequence s + 1) AND MAX_SEQUENCE_ID\<rparr> in
         if sequence s1 = 0 then
           (case spin since (timestamp s1) now k of
              None \<Rightarrow> None
            | Some (now', k') \<Rightarrow> Some (s1, now', k'))
         else Some (s1, now, k))
      else Some (s\<lparr>sequence := 0\<rparr>, now, k))"

text \<open>Lines 120-124: the identifier.\<close>

definition pack :: "SnowFlake \<Rightarrow> int64 \<Rightarrow> int64" where
  "pack s now =
     push_bit SHIFT_TIMESTAMP (now - EPOCH)
       OR push_bit SHIFT_DATACENTER (datacenterId s)
       OR push_bit SHIFT_WORKER (workerId s)
       OR sequence s"

text \<open>
  The whole call, from the \<open>k\<close>-th reading of the clock on. A panic leaves the function
  before any assignment to a field.
\<close>

definition NextID ::
  "clock \<Rightarrow> nat \<Rightarrow> SnowFlake \<Rightarrow> (outcome \<times> SnowFlake \<times> nat \<times> int64 list) option"
where
  "NextID since k s =
     (case backward_check since s (GetNow (since k)) (Suc k) of
        Inl (err, k1, slept) \<Rightarrow> Some (Panicked err, s, k1, slept)
      | Inr (now, k1, slept) \<Rightarrow>
          (case next_sequence since s now k1 of
             None \<Rightarrow> None
           | Some (s1, now', k2) \<Rightarrow>
               (let s2 = s1\<lparr>timestamp := now'\<rparr>
                in Some (Returned (pack s2 now'), s2, k2, slept))))"

subsection \<open>Sequences of calls\<close>

text \<open>
  The states of a generator that \<open>New dc wk\<close> returned: the one \<open>New\<close> builds, and
  the one any call of \<open>NextID\<close> leaves, whatever the clock reads and whether the call
  returns or panics.
\<close>

inductive reachable :: "int64 \<Rightarrow> int64 \<Rightarrow> SnowFlake \<Rightarrow> bool" for dc wk where
  init: "New dc wk = (Some g, None) \<Longrightarrow> reachable dc wk g"
| step: "reachable dc wk s \<Longrightarrow> NextID since k s = Some (out, s', k', slept)
           \<Longrightarrow> reachable dc wk s'"



subsection \<open>The layout as the specification words it\<close>

text \<open>
  The specification's packing,
  \<open>(now << (seqBits+workerBits+dcBits)) | (datacenterId << (seqBits+workerBits))
  | (workerId << seqBits) | sequence\<close>, with \<open>now\<close> the elapsed milliseconds that the
  clock reading gives; and its timestamp field, bits 62..22 of an identifier.
\<close>

definition spec_pack :: "int64 \<Rightarrow> int64 \<Rightarrow> int64 \<Rightarrow> int64 \<Rightarrow> int64" where
  "spec_pack now dc wk sq =
     push_bit (BIT_SEQUENCE + BIT_WORKER + BIT_DATACENTER) now
       OR push_bit (BIT_SEQUENCE + BIT_WORKER) dc
       OR push_bit BIT_SEQUENCE wk
       OR sq"

definition spec_timestamp_field :: "int64 \<Rightarrow> int64" where
  "spec_timestamp_field sid = take_bit 41 (drop_bit 22 sid)"

subsection \<open>Clocks for concrete runs\<close>

text \<open>
  The clock whose first readings are the durations \<open>ds\<close> and whose every later reading
  is \<open>d\<close>.
\<close>

definition readings :: "int64 list \<Rightarrow> int64 \<Rightarrow> clock" where
  "readings ds d k = (if k < length ds then ds ! k else d)"

subsection \<open>Notions used in the proofs\<close>

text \<open>
  What holds of every state of a generator built by \<open>New dc wk\<close>: the identities are
  the ones given and fit their five bits, the sequence fits its twelve bits, and the
  timestamp is a non-negative number of milliseconds that \<open>GetNow\<close> can return.
\<close>

definition state_inv :: "int64 \<Rightarrow> int64 \<Rightarrow> SnowFlake \<Rightarrow> bool" where
  "state_inv dc wk s \<longleftrightarrow>
     datacenterId s = dc \<and> workerId s = wk \<and> dc \<le> 31 \<and> wk \<le> 31 \<and> sequence s \<le> 4095
     \<and> 0 \<le> sint (timestamp s) \<and> sint (timestamp s) \<le> 9223372036854"

text \<open>
  The place of a state in the order of issue, timestamp first and sequence second, and the
  part of an identifier's value that the node and the epoch contribute.
\<close>

definition position :: "SnowFlake \<Rightarrow> int" where
  "position s = sint (timestamp s) * 4194304 + uint (sequence s)"

definition node_part :: "int64 \<Rightarrow> int64 \<Rightarrow> int" where
  "node_part dc wk = uint dc * 131072 + uint wk * 4096 - 1577808000000 * 4194304"

section \<open>Constants and arithmetic\<close>

lemma MAX_DATACENTER_ID_eq: "MAX_DATACENTER_ID = 31"
  by (simp add: MAX_DATACENTER_ID_def BIT_DATACENTER_def mask_eq_exp_minus_1)

lemma MAX_WORKER_ID_eq: "MAX_WORKER_ID = 31"
  by (simp add: MAX_WORKER_ID_def BIT_WORKER_def mask_eq_exp_minus_1)

lemma MAX_SEQUENCE_ID_eq: "MAX_SEQUENCE_ID = 4095"
  by (simp add: MAX_SEQUENCE_ID_def BIT_SEQUENCE_def mask_eq_exp_minus_1)

lemma SHIFT_eqs: "SHIFT_TIMESTAMP = 22" "SHIFT_DATACENTER = 17" "SHIFT_WORKER = 12"
  by (simp_all add: SHIFT_TIMESTAMP_def SHIFT_DATACENTER_def SHIFT_WORKER_def
      BIT_SEQUENCE_def BIT_WORKER_def BIT_DATACENTER_def)

lemma fmt_d_30: "fmt_d 30 = ''30''"
  by (simp add: fmt_d_def decimal.simps digit_char_def)

lemma sdiv_million_bounds:
  fixes x :: int
  assumes "- 9223372036854775808 \<le> x" "x < 9223372036854775808"
  shows "- 9223372036854 \<le> x sdiv 1000000" "x sdiv 1000000 \<le> 9223372036854"
proof -
  have "\<bar>x\<bar> div 1000000 \<le> 9223372036854775808 div 1000000"
    using assms by (intro zdiv_mono1) auto
  then have b: "\<bar>x\<bar> div 1000000 \<le> 9223372036854" by simp
  have c: "0 \<le> \<bar>x\<bar> div 1000000" by simp
  show "- 9223372036854 \<le> x sdiv 1000000" "x sdiv 1000000 \<le> 9223372036854"
    using b c by (auto simp: signed_divide_int_def sgn_if)
qed

lemma sint_int64_range: "- 9223372036854775808 \<le> sint (w::int64) \<and> sint w < 9223372036854775808"
  using sint_ge [of w] sint_lt [of w] by simp

lemma sint_GetNow: "sint (GetNow d) = sint d sdiv 1000000"
proof -
  have "- 9223372036854 \<le> sint d sdiv 1000000" "sint d sdiv 1000000 \<le> 9223372036854"
    using sdiv_million_bounds sint_int64_range by blast+
  then show ?thesis
    unfolding GetNow_def by (simp add: sint_sbintrunc' signed_take_bit_int_eq_self)
qed

lemma GetNow_range: "- 9223372036854 \<le> sint (GetNow d)" "sint (GetNow d) \<le> 9223372036854"
  unfolding sint_GetNow using sdiv_million_bounds sint_int64_range by blast+

lemma uint_eq_sint: "0 \<le> sint (w::int64) \<Longrightarrow> uint w = sint w"
  using sint_lt [of w] by (simp add: uint_sint take_bit_int_eq_self)

lemma bit_below: "(w::int64) < 2 ^ n \<Longrightarrow> bit w m \<Longrightarrow> m < n"
  by (metis bit_and_iff bit_mask_iff less_mask_eq)

lemma signed_range_le: "\<not> w <s 0 \<Longrightarrow> \<not> 31 <s w \<Longrightarrow> (w::int64) \<le> 31"
  by (simp add: word_sless_alt word_le_def uint_eq_sint)

lemma bit_le_31: "(w::int64) \<le> 31 \<Longrightarrow> bit w m \<Longrightarrow> m < 5"
  using bit_below [of w 5 m] by (simp add: word_le_def word_less_def)

lemma bit_le_4095: "(w::int64) \<le> 4095 \<Longrightarrow> bit w m \<Longrightarrow> m < 12"
  using bit_below [of w 12 m] by (simp add: word_le_def word_less_def)

lemma uint_next_sequence: "uint (((x::int64) + 1) AND 4095) = (uint x + 1) mod 4096"
proof -
  have "(x + 1) AND 4095 = take_bit 12 (x + 1)"
    using take_bit_eq_mask [of 12 "x + 1"] by (simp add: mask_eq_exp_minus_1)
  then have "uint ((x + 1) AND 4095) = take_bit 12 (uint (x + 1))"
    by (simp only: unsigned_take_bit_eq)
  also have "\<dots> = uint (x + 1) mod 4096"
    by (simp add: take_bit_eq_mod)
  also have "\<dots> = ((uint x + 1) mod 2 ^ 64) mod 4096"
    by (simp add: uint_word_ariths)
  also have "\<dots> = (uint x + 1) mod 4096"
    by (rule mod_mod_cancel) simp
  finally show ?thesis .
qed


text \<open>Evaluation of a call on a concrete clock and generator.\<close>

lemmas NextID_eval = NextID_def backward_check_def next_sequence_def pack_def GetNow_def
  signed_divide_int_def MAX_BACKWARD_MS_def MAX_SEQUENCE_ID_eq SHIFT_eqs EPOCH_def Millisecond_def
  word_sless_alt word_sle_eq readings_def fmt_d_def decimal.simps digit_char_def

section \<open>The waiting loop\<close>

text \<open>
  The loop of lines 105-107 returns the first reading above the timestamp, and it returns
  exactly when there is one.
\<close>

lemma spin_again:
  "now \<le>s ts \<Longrightarrow> spin since ts now k = spin since ts (GetNow (since k)) (Suc k)"
  by (subst spin.simps) simp

lemma spin_done: "\<not> now \<le>s ts \<Longrightarrow> spin since ts now k = Some (now, k)"
  by (subst spin.simps) simp

lemma spin_steps:
  "now \<le>s ts \<Longrightarrow> (\<forall>j<m. GetNow (since (k + j)) \<le>s ts) \<Longrightarrow> ts <s GetNow (since (k + m))
     \<Longrightarrow> spin since ts now k = Some (GetNow (since (k + m)), Suc (k + m))"
proof (induction m arbitrary: now k)
  case 0
  then have "\<not> GetNow (since k) \<le>s ts" by (simp add: word_sless_alt word_sle_eq)
  with 0 show ?case by (simp add: spin_again spin_done)
next
  case (Suc m)
  from Suc.prems(2) have first: "GetNow (since k) \<le>s ts" by force
  have rest: "\<forall>j<m. GetNow (since (Suc k + j)) \<le>s ts"
  proof (intro allI impI)
    fix j assume "j < m"
    then have "Suc j < Suc m" by simp
    with Suc.prems(2) have "GetNow (since (k + Suc j)) \<le>s ts" by blast
    then show "GetNow (since (Suc k + j)) \<le>s ts" by simp
  qed
  have "ts <s GetNow (since (Suc k + m))" using Suc.prems(3) by simp
  from Suc.IH [OF first rest this] Suc.prems(1) show ?case
    by (simp add: spin_again [of now])
qed

lemma spin_Some_D:
  assumes "spin since ts now k = Some r"
  shows "(\<not> now \<le>s ts \<and> r = (now, k)) \<or>
         (now \<le>s ts \<and> (\<exists>m. r = (GetNow (since (k + m)), Suc (k + m)) \<and> ts <s GetNow (since (k + m))
             \<and> (\<forall>j<m. GetNow (since (k + j)) \<le>s ts)))"
proof (rule spin.raw_induct [where P = "\<lambda>since ts now k r. (\<not> now \<le>s ts \<and> r = (now, k)) \<or>
         (now \<le>s ts \<and> (\<exists>m. r = (GetNow (since (k + m)), Suc (k + m)) \<and> ts <s GetNow (since (k + m))
             \<and> (\<forall>j<m. GetNow (since (k + j)) \<le>s ts)))", OF _ assms])
  fix spin' :: "clock \<Rightarrow> int64 \<Rightarrow> int64 \<Rightarrow> nat \<Rightarrow> (int64 \<times> nat) option"
    and since ts now k r
  assume IH: "\<And>since ts now k r. spin' since ts now k = Some r \<Longrightarrow>
      (\<not> now \<le>s ts \<and> r = (now, k)) \<or>
         (now \<le>s ts \<and> (\<exists>m. r = (GetNow (since (k + m)), Suc (k + m)) \<and> ts <s GetNow (since (k + m))
             \<and> (\<forall>j<m. GetNow (since (k + j)) \<le>s ts)))"
    and body: "(if now \<le>s ts then spin' since ts (GetNow (since k)) (Suc k) else Some (now, k)) = Some r"
  show "(\<not> now \<le>s ts \<and> r = (now, k)) \<or>
         (now \<le>s ts \<and> (\<exists>m. r = (GetNow (since (k + m)), Suc (k + m)) \<and> ts <s GetNow (since (k + m))
             \<and> (\<forall>j<m. GetNow (since (k + j)) \<le>s ts)))"
  proof (cases "now \<le>s ts")
    case False
    with body show ?thesis by auto
  next
    case True
    with body have call: "spin' since ts (GetNow (since k)) (Suc k) = Some r" by simp
    from IH [OF call] show ?thesis
    proof
      assume "\<not> GetNow (since k) \<le>s ts \<and> r = (GetNow (since k), Suc k)"
      then have "r = (GetNow (since (k + 0)), Suc (k + 0)) \<and> ts <s GetNow (since (k + 0))
             \<and> (\<forall>j<0. GetNow (since (k + j)) \<le>s ts)"
        by (simp add: word_sless_alt word_sle_eq)
      with True show ?thesis by blast
    next
      assume "GetNow (since k) \<le>s ts \<and> (\<exists>m. r = (GetNow (since (Suc k + m)), Suc (Suc k + m)) \<and> ts <s GetNow (since (Suc k + m))
             \<and> (\<forall>j<m. GetNow (since (Suc k + j)) \<le>s ts))"
      then obtain m where f: "GetNow (since k) \<le>s ts"
        and m: "r = (GetNow (since (Suc k + m)), Suc (Suc k + m))" "ts <s GetNow (since (Suc k + m))"
          "\<forall>j<m. GetNow (since (Suc k + j)) \<le>s ts" by blast
      have "\<forall>j<Suc m. GetNow (since (k + j)) \<le>s ts"
      proof (intro allI impI)
        fix j assume "j < Suc m"
        then show "GetNow (since (k + j)) \<le>s ts"
          using f m(3) by (cases j) auto
      qed
      with m(1,2) have "r = (GetNow (since (k + Suc m)), Suc (k + Suc m)) \<and> ts <s GetNow (since (k + Suc m))
             \<and> (\<forall>j<Suc m. GetNow (since (k + j)) \<le>s ts)" by simp
      with True show ?thesis by blast
    qed
  qed
qed

lemma spin_None:
  assumes "now \<le>s ts" "\<forall>j. GetNow (since (k + j)) \<le>s ts"
  shows "spin since ts now k = None"
proof (cases "spin since ts now k")
  case (Some r)
  from spin_Some_D [OF Some] assms(1) obtain m where "ts <s GetNow (since (k + m))"
    by blast
  moreover from assms(2) have "GetNow (since (k + m)) \<le>s ts" by blast
  ultimately show ?thesis by (simp add: word_sless_alt word_sle_eq)
qed simp

section \<open>What a call does to the generator\<close>

lemma backward_check_Inr:
  assumes "backward_check since s now k = Inr (now1, k1, slept)"
  shows "\<not> now1 <s timestamp s" "now1 = now \<or> now1 = GetNow (since k)"
  using assms by (auto simp: backward_check_def Let_def split: if_splits)

lemma next_sequence_Some:
  assumes "next_sequence since s now k = Some (s1, now', k')" "\<not> now <s timestamp s"
  shows "\<exists>q. s1 = s\<lparr>sequence := q\<rparr> \<and>
           ((timestamp s <s now' \<and> q = 0 \<and> (now' = now \<or> (\<exists>j. now' = GetNow (since j))))
            \<or> (now' = timestamp s \<and> now' = now \<and> q = (sequence s + 1) AND 4095 \<and> q \<noteq> 0))"
proof (cases "timestamp s = now")
  case False
  with assms(2) have "timestamp s <s now" using signed.less_linear by blast
  with False assms(1) show ?thesis by (auto simp: next_sequence_def)
next
  case True
  show ?thesis
  proof (cases "(sequence s + 1) AND 4095 = 0")
    case nz: False
    with True assms(1) show ?thesis
      by (auto simp: next_sequence_def Let_def MAX_SEQUENCE_ID_eq)
  next
    case z: True
    with True assms(1) have sp: "spin since now now k = Some (now', k')"
      and s1: "s1 = s\<lparr>sequence := 0\<rparr>"
      by (auto simp: next_sequence_def Let_def MAX_SEQUENCE_ID_eq split: option.splits)
    from spin_Some_D [OF sp] obtain m where "now' = GetNow (since (k + m))" "now <s now'"
      by auto
    with True s1 show ?thesis by auto
  qed
qed

lemma NextID_Returned:
  assumes "NextID since k s = Some (Returned sid, s', k', slept)"
  shows "\<exists>now q. s' = s\<lparr>sequence := q, timestamp := now\<rparr> \<and> sid = pack s' now
           \<and> (\<exists>j. now = GetNow (since j))
           \<and> ((timestamp s <s now \<and> q = 0)
                \<or> (now = timestamp s \<and> q = (sequence s + 1) AND 4095 \<and> q \<noteq> 0))"
proof -
  from assms obtain now1 k1 s1 now where
    bc: "backward_check since s (GetNow (since k)) (Suc k) = Inr (now1, k1, slept)"
    and ns: "next_sequence since s now1 k1 = Some (s1, now, k')"
    and s': "s' = s1\<lparr>timestamp := now\<rparr>" and sid: "sid = pack s' now"
    by (auto simp: NextID_def Let_def split: sum.splits option.splits prod.splits)
  from backward_check_Inr [OF bc] have nb: "\<not> now1 <s timestamp s"
    and src: "\<exists>j. now1 = GetNow (since j)" by auto
  from next_sequence_Some [OF ns nb] src s' sid show ?thesis by auto
qed

lemma New_inv: "New dc wk = (Some g, None) \<Longrightarrow> state_inv dc wk g"
  by (auto simp: New_def state_inv_def MAX_DATACENTER_ID_eq MAX_WORKER_ID_eq
      intro: signed_range_le split: if_splits)

lemma NextID_inv:
  assumes "state_inv dc wk s" "NextID since k s = Some (out, s', k', slept)"
  shows "state_inv dc wk s'"
proof (cases out)
  case (Panicked err)
  with assms show ?thesis
    by (auto simp: NextID_def Let_def split: sum.splits option.splits prod.splits)
next
  case (Returned sid)
  with assms(2) NextID_Returned obtain now q where
    s': "s' = s\<lparr>sequence := q, timestamp := now\<rparr>" and now: "\<exists>j. now = GetNow (since j)"
    and c: "(timestamp s <s now \<and> q = 0) \<or> (now = timestamp s \<and> q = (sequence s + 1) AND 4095 \<and> q \<noteq> 0)"
    by blast
  from c have "q \<le> 4095" using word_and_le1 [of "sequence s + 1" 4095] by auto
  moreover from c assms(1) have "0 \<le> sint now" by (auto simp: state_inv_def word_sless_alt)
  moreover from now have "sint now \<le> 9223372036854" using GetNow_range(2) by auto
  ultimately show ?thesis using assms(1) s' by (simp add: state_inv_def)
qed

lemma reachable_inv: "reachable dc wk s \<Longrightarrow> state_inv dc wk s"
  by (induction rule: reachable.induct) (auto intro: New_inv NextID_inv)

lemma New_3_7: "New 3 7 = (Some \<lparr>timestamp = 0, datacenterId = 3, workerId = 7, sequence = 0\<rparr>, None)"
  by (simp add: New_def MAX_DATACENTER_ID_eq MAX_WORKER_ID_eq word_sless_alt)

lemma reachable_3_7_first:
  "reachable 3 7 \<lparr>timestamp = 215000000000, datacenterId = 3, workerId = 7, sequence = 0\<rparr>"
proof -
  have "NextID (readings [] 215000000000000000) 0
          \<lparr>timestamp = 0, datacenterId = 3, workerId = 7, sequence = 0\<rparr>
        = Some (Returned (- 5716031045631578112),
            \<lparr>timestamp = 215000000000, datacenterId = 3, workerId = 7, sequence = 0\<rparr>, 1, [])"
    by (simp add: NextID_eval)
  from reachable.step [OF reachable.init [OF New_3_7] this] show ?thesis .
qed

section \<open>The value of an identifier\<close>

lemma int_pack:
  fixes T d w q :: int
  assumes "0 \<le> d" "d < 32" "0 \<le> w" "w < 32" "0 \<le> q" "q < 4096"
  shows "push_bit 22 T OR push_bit 17 d OR push_bit 12 w OR q
           = T * 4194304 + d * 131072 + w * 4096 + q"
proof -
  have "push_bit 22 T OR push_bit 17 d OR push_bit 12 w OR q
          = concat_bit 12 q (concat_bit 5 w (concat_bit 5 d T))"
    using assms
    by (simp add: concat_bit_def take_bit_int_eq_self ac_simps)
  also have "\<dots> = T * 4194304 + d * 131072 + w * 4096 + q"
    using assms
    by (simp add: concat_bit_eq take_bit_int_eq_self push_bit_eq_mult algebra_simps)
  finally show ?thesis .
qed

lemma sint_pack:
  assumes "datacenterId s \<le> 31" "workerId s \<le> 31" "sequence s \<le> 4095"
    and "- 621215255552 \<le> sint now" "sint now < 3776831255552"
  shows "sint (pack s now) =
           (sint now - 1577808000000) * 4194304 + uint (datacenterId s) * 131072
             + uint (workerId s) * 4096 + uint (sequence s)"
proof -
  define T where "T = sint now - 1577808000000"
  define d where "d = uint (datacenterId s)"
  define w where "w = uint (workerId s)"
  define q where "q = uint (sequence s)"
  have bounds: "0 \<le> d" "d < 32" "0 \<le> w" "w < 32" "0 \<le> q" "q < 4096"
    using assms(1-3) by (simp_all add: d_def w_def q_def word_le_def)
  have T: "- 2199023255552 \<le> T" "T < 2199023255552"
    using assms(4,5) by (simp_all add: T_def)
  have "now - EPOCH = word_of_int T"
    by (simp add: T_def EPOCH_def)
  moreover have "datacenterId s = word_of_int d" "workerId s = word_of_int w"
    "sequence s = word_of_int q"
    by (simp_all add: d_def w_def q_def)
  ultimately have packed: "pack s now =
      word_of_int (push_bit 22 T OR push_bit 17 d OR push_bit 12 w OR q)"
    by (simp add: pack_def SHIFT_eqs of_int_or_eq of_int_push_bit)
  define V where "V = T * 4194304 + d * 131072 + w * 4096 + q"
  have "pack s now = word_of_int V"
    unfolding V_def by (simp only: packed int_pack [OF bounds])
  moreover have "- (2 ^ 63) \<le> V" "V < 2 ^ 63"
    using bounds T by (simp_all add: V_def)
  ultimately have "sint (pack s now) = V"
    by (simp add: sint_sbintrunc' signed_take_bit_int_eq_self)
  then show ?thesis by (simp add: V_def T_def d_def w_def q_def)
qed

lemma decode_fields:
  fixes t d w q :: int64
  assumes "d \<le> 31" "w \<le> 31" "q \<le> 4095"
  shows "signed_drop_bit 17 (push_bit 22 t OR push_bit 17 d OR push_bit 12 w OR q) AND 31 = d"
    and "signed_drop_bit 12 (push_bit 22 t OR push_bit 17 d OR push_bit 12 w OR q) AND 31 = w"
proof -
  have m: "(31::int64) = mask 5" by (simp add: mask_eq_exp_minus_1)
  note b = bit_le_31 [OF assms(1)] bit_le_31 [OF assms(2)] bit_le_4095 [OF assms(3)]
  show "signed_drop_bit 17 (push_bit 22 t OR push_bit 17 d OR push_bit 12 w OR q) AND 31 = d"
    unfolding m
  proof (rule bit_word_eqI)
    fix n assume "n < LENGTH(64)"
    show "bit (signed_drop_bit 17 (push_bit 22 t OR push_bit 17 d OR push_bit 12 w OR q) AND mask 5) n = bit d n"
      using b(1) [of n] b(2) [of "5 + n"] b(3) [of "17 + n"]
      by (auto simp: bit_simps)
  qed
  show "signed_drop_bit 12 (push_bit 22 t OR push_bit 17 d OR push_bit 12 w OR q) AND 31 = w"
    unfolding m
  proof (rule bit_word_eqI)
    fix n assume "n < LENGTH(64)"
    show "bit (signed_drop_bit 12 (push_bit 22 t OR push_bit 17 d OR push_bit 12 w OR q) AND mask 5) n = bit w n"
      using b(2) [of n] b(3) [of "12 + n"]
      by (auto simp: bit_simps)
  qed
qed

lemma GetDeviceID_pack:
  assumes "datacenterId s \<le> 31" "workerId s \<le> 31" "sequence s \<le> 4095"
  shows "GetDeviceID (pack s now) = (datacenterId s, workerId s)"
  using decode_fields [OF assms]
  by (simp add: GetDeviceID_def pack_def SHIFT_eqs MAX_DATACENTER_ID_eq MAX_WORKER_ID_eq)


lemma NextID_sint_id:
  assumes "state_inv dc wk s" "NextID since k s = Some (Returned sid, s', k', slept)"
    and "sint (timestamp s') < 3776831255552"
  shows "sint sid = position s' + node_part dc wk"
proof -
  from NextID_inv [OF assms(1,2)] have inv: "state_inv dc wk s'" .
  from NextID_Returned [OF assms(2)] have sid: "sid = pack s' (timestamp s')" by auto
  from inv have "datacenterId s' \<le> 31" "workerId s' \<le> 31" "sequence s' \<le> 4095"
    "- 621215255552 \<le> sint (timestamp s')"
    by (simp_all add: state_inv_def)
  from sint_pack [OF this assms(3)] inv show ?thesis
    by (simp add: sid position_def node_part_def state_inv_def)
qed

section \<open>Construction\<close>

text \<open>
  C7. \<open>New\<close> returns an error exactly when \<open>datacenterId\<close> or \<open>workerId\<close> lies
  outside \<open>[0, 31]\<close>. With an error the generator is \<open>nil\<close>; without one the generator
  holds the two identities, \<open>timestamp = 0\<close> and \<open>sequence = 0\<close>. \<open>New(32, 0)\<close> and
  \<open>New(0, 32)\<close> fail and \<open>New(31, 31)\<close> succeeds.
\<close>

theorem New_error_iff:
  "(snd (New dc wk) \<noteq> None \<longleftrightarrow>
      \<not> (0 \<le> sint dc \<and> sint dc \<le> 31) \<or> \<not> (0 \<le> sint wk \<and> sint wk \<le> 31))
   \<and> (snd (New dc wk) \<noteq> None \<longrightarrow> fst (New dc wk) = None)
   \<and> (snd (New dc wk) = None \<longrightarrow>
        fst (New dc wk) = Some \<lparr>timestamp = 0, datacenterId = dc, workerId = wk, sequence = 0\<rparr>)
   \<and> snd (New 32 0) \<noteq> None \<and> snd (New 0 32) \<noteq> None \<and> snd (New 31 31) = None"
  by (simp add: New_def MAX_DATACENTER_ID_eq MAX_WORKER_ID_eq word_sless_alt)

theorem New_error_iff_witness:
  "snd (New 32 0) \<noteq> None \<and> fst (New 32 0) = None
   \<and> snd (New 4 (- 1)) \<noteq> None \<and> fst (New 4 (- 1)) = None
   \<and> snd (New 3 7) = None
   \<and> fst (New 3 7) = Some \<lparr>timestamp = 0, datacenterId = 3, workerId = 7, sequence = 0\<rparr>"
  using New_error_iff [of 32 0] New_error_iff [of 4 "- 1"] New_error_iff [of 3 7]
  by simp

text \<open>
  C8. The error of \<open>New\<close> names the field and a range. The range it prints ends at
  \<open>MAX_DATACENTER_ID - 1\<close> (and \<open>MAX_WORKER_ID - 1\<close>), which is 30, although the check
  before it accepts 31: the text and the check disagree by one.
\<close>

theorem New_error_text:
  "New 32 0 = (None, Some ''datacenterId must be between 0 and 30'')
   \<and> New 0 32 = (None, Some ''machineId must be between 0 and 30'')
   \<and> New 31 31 = (Some \<lparr>timestamp = 0, datacenterId = 31, workerId = 31, sequence = 0\<rparr>, None)"
  by (simp add: New_def MAX_DATACENTER_ID_eq MAX_WORKER_ID_eq fmt_d_30 word_sless_alt)

section \<open>Identifiers\<close>

text \<open>
  \<open>GetNow\<close> already measures from the epoch, and line 120 subtracts \<open>EPOCH\<close> once
  more before shifting. While the reading is below \<open>EPOCH\<close> milliseconds, that is for
  the first fifty years after the epoch, the identifier is negative.
\<close>

lemma NextID_negative_before_EPOCH:
  assumes "reachable dc wk s" "NextID since k s = Some (Returned sid, s', k', slept)"
    and "sint (timestamp s') < 1577808000000"
  shows "sint sid < 0"
proof -
  from assms(1) have inv: "state_inv dc wk s" by (rule reachable_inv)
  from assms(3) have "sint (timestamp s') < 3776831255552" by simp
  from NextID_sint_id [OF inv assms(2) this]
  have v: "sint sid = position s' + node_part dc wk" .
  from NextID_inv [OF inv assms(2)] have "dc \<le> 31" "wk \<le> 31" "sequence s' \<le> 4095"
    by (simp_all add: state_inv_def)
  then have "uint dc \<le> 31" "uint wk \<le> 31" "uint (sequence s') \<le> 4095"
    by (simp_all add: word_le_def)
  with assms(3) v show ?thesis by (simp add: position_def node_part_def)
qed

text \<open>
  C1. Every identifier that \<open>NextID\<close> returns is a non-negative 63-bit number,
  \<open>0 \<le> id < 2^63\<close>. The code does not keep this: a generator built by \<open>New(3, 7)\<close>
  whose clock reads 215000000000 ms since the epoch (late 2026) returns
  \<open>-5716031045631578112\<close>.
\<close>

theorem NextID_negative_id:
  "New 3 7 = (Some \<lparr>timestamp = 0, datacenterId = 3, workerId = 7, sequence = 0\<rparr>, None)
   \<and> NextID (readings [] 215000000000000000) 0
         \<lparr>timestamp = 0, datacenterId = 3, workerId = 7, sequence = 0\<rparr>
       = Some (Returned (- 5716031045631578112),
           \<lparr>timestamp = 215000000000, datacenterId = 3, workerId = 7, sequence = 0\<rparr>, 1, [])
   \<and> sint (- 5716031045631578112 :: int64) = - 5716031045631578112"
  by (simp add: New_3_7 NextID_eval)

text \<open>
  C2. The identifier returned is \<open>(now << 22) | (datacenterId << 17) | (workerId << 12)
  | sequence\<close> with \<open>now\<close> the last reading of the call, so that bits 62..22 hold the
  elapsed milliseconds. The code shifts \<open>now - EPOCH\<close> instead: at the reading
  215000000000 the specification's value is 901775360000421888, the code returns
  \<open>-5716031045631578112\<close>, and bits 62..22 of it hold 836215255552.
\<close>

theorem NextID_not_spec_pack:
  "NextID (readings [] 215000000000000000) 0
         \<lparr>timestamp = 0, datacenterId = 3, workerId = 7, sequence = 0\<rparr>
       = Some (Returned (- 5716031045631578112),
           \<lparr>timestamp = 215000000000, datacenterId = 3, workerId = 7, sequence = 0\<rparr>, 1, [])
   \<and> GetNow (readings [] 215000000000000000 0) = 215000000000
   \<and> spec_pack 215000000000 3 7 0 = 901775360000421888
   \<and> spec_pack 215000000000 3 7 0 \<noteq> - 5716031045631578112
   \<and> spec_timestamp_field (- 5716031045631578112) = 836215255552
   \<and> spec_timestamp_field (spec_pack 215000000000 3 7 0) = 215000000000"
  by (simp add: NextID_eval spec_pack_def spec_timestamp_field_def
      BIT_SEQUENCE_def BIT_WORKER_def BIT_DATACENTER_def)

text \<open>
  C6. For a generator built by \<open>New dc wk\<close> (which succeeds exactly for \<open>dc\<close> and
  \<open>wk\<close> in \<open>[0, 31]\<close>) and any state it reaches, \<open>GetDeviceID\<close> applied to the
  identifier that \<open>NextID\<close> returns gives back \<open>(dc, wk)\<close>.
\<close>

theorem GetDeviceID_NextID:
  assumes "reachable dc wk s" "NextID since k s = Some (Returned sid, s', k', slept)"
  shows "GetDeviceID sid = (dc, wk)"
proof -
  from assms(1) have "state_inv dc wk s" by (rule reachable_inv)
  from NextID_inv [OF this assms(2)] have inv: "state_inv dc wk s'" .
  from NextID_Returned [OF assms(2)] obtain now where "sid = pack s' now" by blast
  with inv show ?thesis by (simp add: GetDeviceID_pack state_inv_def)
qed

theorem GetDeviceID_NextID_witness:
  "reachable 3 7 \<lparr>timestamp = 215000000000, datacenterId = 3, workerId = 7, sequence = 0\<rparr>
   \<and> NextID (readings [] 215000000000000000) 1
         \<lparr>timestamp = 215000000000, datacenterId = 3, workerId = 7, sequence = 0\<rparr>
       = Some (Returned (- 5716031045631578111),
           \<lparr>timestamp = 215000000000, datacenterId = 3, workerId = 7, sequence = 1\<rparr>, 2, [])
   \<and> GetDeviceID (- 5716031045631578111) = (3, 7)"
proof -
  have call: "NextID (readings [] 215000000000000000) 1
         \<lparr>timestamp = 215000000000, datacenterId = 3, workerId = 7, sequence = 0\<rparr>
       = Some (Returned (- 5716031045631578111),
           \<lparr>timestamp = 215000000000, datacenterId = 3, workerId = 7, sequence = 1\<rparr>, 2, [])"
    by (simp add: NextID_eval)
  from GetDeviceID_NextID [OF reachable_3_7_first call] reachable_3_7_first call
  show ?thesis by simp
qed

section \<open>Sequence management\<close>

text \<open>
  C5. Let \<open>now\<close> be the reading a call goes on with after the check for a clock that
  moved backwards. If \<open>now\<close> differs from the timestamp, the sequence becomes 0. If it
  equals the timestamp, the sequence becomes \<open>(sequence + 1) mod 4096\<close>; when that is 0
  the call reads the clock until a reading exceeds the timestamp, goes on with that
  reading, and never returns if there is none. In every case the timestamp becomes the
  final \<open>now\<close>, which is also the one packed.
\<close>

theorem NextID_sequence:
  assumes "backward_check since s (GetNow (since k)) (Suc k) = Inr (now, k1, slept)"
  shows
    "(now \<noteq> timestamp s \<longrightarrow>
        NextID since k s =
          Some (Returned (pack (s\<lparr>sequence := 0, timestamp := now\<rparr>) now),
                s\<lparr>sequence := 0, timestamp := now\<rparr>, k1, slept))
     \<and> (now = timestamp s \<and> (sequence s + 1) AND 4095 \<noteq> 0 \<longrightarrow>
        NextID since k s =
          Some (Returned (pack (s\<lparr>sequence := (sequence s + 1) AND 4095, timestamp := now\<rparr>) now),
                s\<lparr>sequence := (sequence s + 1) AND 4095, timestamp := now\<rparr>, k1, slept))
     \<and> (now = timestamp s \<and> (sequence s + 1) AND 4095 = 0
          \<and> (\<forall>j<m. GetNow (since (k1 + j)) \<le>s timestamp s)
          \<and> timestamp s <s GetNow (since (k1 + m)) \<longrightarrow>
        NextID since k s =
          Some (Returned (pack (s\<lparr>sequence := 0, timestamp := GetNow (since (k1 + m))\<rparr>)
                            (GetNow (since (k1 + m)))),
                s\<lparr>sequence := 0, timestamp := GetNow (since (k1 + m))\<rparr>, Suc (k1 + m), slept))
     \<and> (now = timestamp s \<and> (sequence s + 1) AND 4095 = 0
          \<and> (\<forall>j. GetNow (since (k1 + j)) \<le>s timestamp s) \<longrightarrow>
        NextID since k s = None)
     \<and> uint ((sequence s + 1) AND 4095) = (uint (sequence s) + 1) mod 4096"
proof (intro conjI impI)
  assume "now \<noteq> timestamp s"
  then show "NextID since k s =
          Some (Returned (pack (s\<lparr>sequence := 0, timestamp := now\<rparr>) now),
                s\<lparr>sequence := 0, timestamp := now\<rparr>, k1, slept)"
    using assms by (auto simp: NextID_def next_sequence_def Let_def)
next
  assume "now = timestamp s \<and> (sequence s + 1) AND 4095 \<noteq> 0"
  then show "NextID since k s =
          Some (Returned (pack (s\<lparr>sequence := (sequence s + 1) AND 4095, timestamp := now\<rparr>) now),
                s\<lparr>sequence := (sequence s + 1) AND 4095, timestamp := now\<rparr>, k1, slept)"
    using assms by (auto simp: NextID_def next_sequence_def MAX_SEQUENCE_ID_eq Let_def)
next
  assume a: "now = timestamp s \<and> (sequence s + 1) AND 4095 = 0
          \<and> (\<forall>j<m. GetNow (since (k1 + j)) \<le>s timestamp s)
          \<and> timestamp s <s GetNow (since (k1 + m))"
  then have "spin since (timestamp s) now k1 = Some (GetNow (since (k1 + m)), Suc (k1 + m))"
    by (intro spin_steps) simp_all
  with a show "NextID since k s =
          Some (Returned (pack (s\<lparr>sequence := 0, timestamp := GetNow (since (k1 + m))\<rparr>)
                            (GetNow (since (k1 + m)))),
                s\<lparr>sequence := 0, timestamp := GetNow (since (k1 + m))\<rparr>, Suc (k1 + m), slept)"
    using assms by (auto simp: NextID_def next_sequence_def MAX_SEQUENCE_ID_eq Let_def)
next
  assume a: "now = timestamp s \<and> (sequence s + 1) AND 4095 = 0
          \<and> (\<forall>j. GetNow (since (k1 + j)) \<le>s timestamp s)"
  then have "spin since (timestamp s) now k1 = None"
    by (intro spin_None) simp_all
  with a show "NextID since k s = None"
    using assms by (auto simp: NextID_def next_sequence_def MAX_SEQUENCE_ID_eq Let_def)
next
  show "uint ((sequence s + 1) AND 4095) = (uint (sequence s) + 1) mod 4096"
    by (rule uint_next_sequence)
qed

theorem NextID_sequence_witness:
  "backward_check (readings [1000000000, 1000999999] 1001000000)
       \<lparr>timestamp = 1000, datacenterId = 3, workerId = 7, sequence = 4095\<rparr>
       (GetNow (readings [1000000000, 1000999999] 1001000000 0)) (Suc 0)
     = Inr (1000, Suc 0, [])
   \<and> NextID (readings [1000000000, 1000999999] 1001000000) 0
         \<lparr>timestamp = 1000, datacenterId = 3, workerId = 7, sequence = 4095\<rparr>
       = Some (Returned (- 6617806401433079808),
           \<lparr>timestamp = 1001, datacenterId = 3, workerId = 7, sequence = 0\<rparr>, 3, [])"
proof -
  have bc: "backward_check (readings [1000000000, 1000999999] 1001000000)
       \<lparr>timestamp = 1000, datacenterId = 3, workerId = 7, sequence = 4095\<rparr>
       (GetNow (readings [1000000000, 1000999999] 1001000000 0)) (Suc 0)
     = Inr (1000, Suc 0, [])"
    by (simp add: NextID_eval)
  from NextID_sequence [where since = "readings [1000000000, 1000999999] 1001000000" and k = 0
      and m = "Suc 0", OF bc] bc show ?thesis
    by (simp add: GetNow_def signed_divide_int_def readings_def pack_def SHIFT_eqs EPOCH_def
        word_sless_alt word_sle_eq)
qed

section \<open>The clock moved backwards\<close>

lemma offset_no_overflow:
  assumes "state_inv dc wk s"
  shows "sint (timestamp s - GetNow d) = sint (timestamp s) - sint (GetNow d)"
proof -
  from assms have "0 \<le> sint (timestamp s)" "sint (timestamp s) \<le> 9223372036854"
    by (simp_all add: state_inv_def)
  with GetNow_range [of d]
  have "- (2 ^ 63) \<le> sint (timestamp s) - sint (GetNow d)"
    "sint (timestamp s) - sint (GetNow d) < 2 ^ 63" by simp_all
  then show ?thesis by (simp add: sint_word_diff signed_take_bit_int_eq_self)
qed

lemma sleep_duration:
  assumes "0 < sint (offset::int64)" "offset \<le>s 3"
  shows "sint (Millisecond * push_bit 1 offset) = 2 * sint offset * 1000000"
proof -
  from assms have r: "0 < sint offset" "sint offset \<le> 3" by (simp_all add: word_sle_eq)
  define V where "V = 2 * sint offset * 1000000"
  have eq: "Millisecond * push_bit 1 offset = word_of_int V"
    by (simp add: V_def Millisecond_def push_bit_eq_mult)
  have "- (2 ^ 63) \<le> V" "V < 2 ^ 63" using r by (simp_all add: V_def)
  then have "sint (word_of_int V :: int64) = V"
    by (simp add: sint_sbintrunc' signed_take_bit_int_eq_self)
  then show ?thesis by (simp only: eq V_def)
qed

text \<open>
  C4. In a call whose first reading \<open>now\<close> is below the timestamp, with
  \<open>offset = timestamp - now\<close> (no overflow occurs): if \<open>offset \<le> 3\<close> the call sleeps
  \<open>2 * offset\<close> milliseconds and reads the clock again, whatever happens afterwards. The
  call panics, returning no identifier and reporting the distance of the last reading from
  the timestamp, if and only if \<open>offset > 3\<close>, or \<open>offset \<le> 3\<close> and the second reading is
  below the timestamp too.
\<close>

theorem NextID_rollback:
  assumes "reachable dc wk s" "GetNow (since k) <s timestamp s"
  shows
    "sint (timestamp s - GetNow (since k)) = sint (timestamp s) - sint (GetNow (since k))
     \<and> (timestamp s - GetNow (since k) \<le>s 3 \<longrightarrow>
          sint (Millisecond * push_bit 1 (timestamp s - GetNow (since k)))
            = 2 * sint (timestamp s - GetNow (since k)) * 1000000
          \<and> (\<exists>r. backward_check since s (GetNow (since k)) (Suc k)
                    = map_sum (\<lambda>err. (err, Suc (Suc k),
                                  [Millisecond * push_bit 1 (timestamp s - GetNow (since k))]))
                              (\<lambda>now'. (now', Suc (Suc k),
                                  [Millisecond * push_bit 1 (timestamp s - GetNow (since k))])) r
                  \<and> (\<forall>now'. r = Inr now' \<longrightarrow> now' = GetNow (since (Suc k))))
          \<and> (\<forall>out s' k' slept. NextID since k s = Some (out, s', k', slept) \<longrightarrow>
                slept = [Millisecond * push_bit 1 (timestamp s - GetNow (since k))]
                \<and> Suc (Suc k) \<le> k'))
     \<and> ((\<exists>err s' k' slept. NextID since k s = Some (Panicked err, s', k', slept)) \<longleftrightarrow>
          3 <s timestamp s - GetNow (since k)
          \<or> (timestamp s - GetNow (since k) \<le>s 3 \<and> GetNow (since (Suc k)) <s timestamp s))
     \<and> (3 <s timestamp s - GetNow (since k) \<longrightarrow>
          NextID since k s =
            Some (Panicked (''Clock moved backwards. Refusing to generate id for ''
                    @ fmt_d (timestamp s - GetNow (since k)) @ '' milliseconds''),
                  s, Suc k, []))
     \<and> (timestamp s - GetNow (since k) \<le>s 3 \<and> GetNow (since (Suc k)) <s timestamp s \<longrightarrow>
          NextID since k s =
            Some (Panicked (''Clock moved backwards. Refusing to generate id for ''
                    @ fmt_d (timestamp s - GetNow (since (Suc k))) @ '' milliseconds''),
                  s, Suc (Suc k), [Millisecond * push_bit 1 (timestamp s - GetNow (since k))]))"
proof -
  define now where "now = GetNow (since k)"
  define offset where "offset = timestamp s - now"
  define now' where "now' = GetNow (since (Suc k))"
  from assms(1) have inv: "state_inv dc wk s" by (rule reachable_inv)
  have off: "sint offset = sint (timestamp s) - sint now"
    unfolding offset_def now_def by (rule offset_no_overflow [OF inv])
  with assms(2) have pos: "0 < sint offset" by (simp add: now_def word_sless_alt)
  have lt: "now <s timestamp s" using assms(2) by (simp add: now_def)
  have gt_iff: "3 <s offset \<longleftrightarrow> \<not> offset \<le>s 3" by (auto simp: word_sless_alt word_sle_eq)
  have big: "\<not> offset \<le>s 3 \<Longrightarrow> NextID since k s =
      Some (Panicked (''Clock moved backwards. Refusing to generate id for ''
                    @ fmt_d offset @ '' milliseconds''), s, Suc k, [])"
    using lt by (simp add: NextID_def backward_check_def MAX_BACKWARD_MS_def Let_def
        now_def [symmetric] offset_def [symmetric])
  have still: "offset \<le>s 3 \<Longrightarrow> now' <s timestamp s \<Longrightarrow> NextID since k s =
      Some (Panicked (''Clock moved backwards. Refusing to generate id for ''
                    @ fmt_d (timestamp s - now') @ '' milliseconds''), s, Suc (Suc k),
            [Millisecond * push_bit 1 offset])"
    using lt by (simp add: NextID_def backward_check_def MAX_BACKWARD_MS_def Let_def
        now_def [symmetric] offset_def [symmetric] now'_def [symmetric])
  have bc: "offset \<le>s 3 \<Longrightarrow> \<not> now' <s timestamp s \<Longrightarrow>
      backward_check since s now (Suc k) = Inr (now', Suc (Suc k), [Millisecond * push_bit 1 offset])"
    using lt by (simp add: backward_check_def MAX_BACKWARD_MS_def Let_def
        offset_def [symmetric] now'_def [symmetric])
  have resolved: "NextID since k s = Some (out, s', k', slept) \<Longrightarrow>
      \<exists>sid. out = Returned sid \<and> slept = [Millisecond * push_bit 1 offset] \<and> Suc (Suc k) \<le> k'"
    if "offset \<le>s 3" "\<not> now' <s timestamp s" for out s' k' slept
  proof -
    assume r: "NextID since k s = Some (out, s', k', slept)"
    from bc [OF that] r obtain s1 t where
      ns: "next_sequence since s now' (Suc (Suc k)) = Some (s1, t, k')"
      and out: "out = Returned (pack (s1\<lparr>timestamp := t\<rparr>) t)"
      and sl: "slept = [Millisecond * push_bit 1 offset]"
      by (auto simp: NextID_def Let_def now_def [symmetric] split: option.splits)
    have "Suc (Suc k) \<le> k'"
    proof (cases "spin since (timestamp s) now' (Suc (Suc k))")
      case None
      with ns show ?thesis
        by (auto simp: next_sequence_def Let_def split: if_splits)
    next
      case (Some r')
      from spin_Some_D [OF Some] have "Suc (Suc k) \<le> snd r'" by auto
      with ns Some show ?thesis
        by (auto simp: next_sequence_def Let_def split: if_splits)
    qed
    with out sl show ?thesis by simp
  qed
  have part1: "sint (timestamp s - GetNow (since k)) = sint (timestamp s) - sint (GetNow (since k))"
    using off by (simp add: offset_def now_def)
  have part2: "offset \<le>s 3 \<longrightarrow>
          sint (Millisecond * push_bit 1 offset) = 2 * sint offset * 1000000
          \<and> (\<exists>r. backward_check since s now (Suc k)
                    = map_sum (\<lambda>err. (err, Suc (Suc k), [Millisecond * push_bit 1 offset]))
                              (\<lambda>now'. (now', Suc (Suc k), [Millisecond * push_bit 1 offset])) r
                  \<and> (\<forall>t. r = Inr t \<longrightarrow> t = now'))
          \<and> (\<forall>out s' k' slept. NextID since k s = Some (out, s', k', slept) \<longrightarrow>
                slept = [Millisecond * push_bit 1 offset] \<and> Suc (Suc k) \<le> k')"
  proof (intro impI conjI allI)
    assume le: "offset \<le>s 3"
    show "sint (Millisecond * push_bit 1 offset) = 2 * sint offset * 1000000"
      by (rule sleep_duration [OF pos le])
    show "\<exists>r. backward_check since s now (Suc k)
                    = map_sum (\<lambda>err. (err, Suc (Suc k), [Millisecond * push_bit 1 offset]))
                              (\<lambda>now'. (now', Suc (Suc k), [Millisecond * push_bit 1 offset])) r
                  \<and> (\<forall>t. r = Inr t \<longrightarrow> t = now')"
    proof (cases "now' <s timestamp s")
      case True
      with lt le have "backward_check since s now (Suc k)
          = Inl (''Clock moved backwards. Refusing to generate id for ''
                    @ fmt_d (timestamp s - now') @ '' milliseconds'', Suc (Suc k),
                 [Millisecond * push_bit 1 offset])"
        by (simp add: backward_check_def MAX_BACKWARD_MS_def Let_def
            offset_def [symmetric] now'_def [symmetric])
      then show ?thesis
        by (intro exI [of _ "Inl (''Clock moved backwards. Refusing to generate id for ''
                    @ fmt_d (timestamp s - now') @ '' milliseconds'')"]) simp
    next
      case False
      from bc [OF le False] show ?thesis
        by (intro exI [of _ "Inr now'"]) simp
    qed
    fix out s' k' slept
    assume r: "NextID since k s = Some (out, s', k', slept)"
    show "slept = [Millisecond * push_bit 1 offset]" "Suc (Suc k) \<le> k'"
      using r still [OF le] resolved [OF le _ r] by (cases "now' <s timestamp s"; auto)+
  qed
  have part3: "(\<exists>err s' k' slept. NextID since k s = Some (Panicked err, s', k', slept)) \<longleftrightarrow>
          3 <s offset \<or> (offset \<le>s 3 \<and> now' <s timestamp s)"
  proof (cases "offset \<le>s 3")
    case False
    with big show ?thesis by (simp add: gt_iff)
  next
    case le: True
    show ?thesis
    proof (cases "now' <s timestamp s")
      case True
      with still [OF le] le show ?thesis by simp
    next
      case False
      with resolved [OF le] le show ?thesis by (fastforce simp: gt_iff)
    qed
  qed
  have part4: "3 <s offset \<longrightarrow> NextID since k s =
      Some (Panicked (''Clock moved backwards. Refusing to generate id for ''
                    @ fmt_d offset @ '' milliseconds''), s, Suc k, [])"
    using big by (simp add: gt_iff)
  have part5: "offset \<le>s 3 \<and> now' <s timestamp s \<longrightarrow> NextID since k s =
      Some (Panicked (''Clock moved backwards. Refusing to generate id for ''
                    @ fmt_d (timestamp s - now') @ '' milliseconds''), s, Suc (Suc k),
            [Millisecond * push_bit 1 offset])"
    using still by simp
  from part1 part2 part3 part4 part5 show ?thesis
    unfolding offset_def now_def now'_def by (intro conjI)
qed

theorem NextID_rollback_witness:
  "reachable 3 7 \<lparr>timestamp = 215000000000, datacenterId = 3, workerId = 7, sequence = 0\<rparr>
   \<and> GetNow (readings [215000000000000000, 214999999998000000, 214999999999000000]
               215000000001000000 1) = 214999999998
   \<and> NextID (readings [215000000000000000, 214999999998000000, 214999999999000000]
               215000000001000000) 1
         \<lparr>timestamp = 215000000000, datacenterId = 3, workerId = 7, sequence = 0\<rparr>
       = Some (Panicked ''Clock moved backwards. Refusing to generate id for 1 milliseconds'',
           \<lparr>timestamp = 215000000000, datacenterId = 3, workerId = 7, sequence = 0\<rparr>, 3,
           [4000000])"
proof -
  have rb: "GetNow (readings [215000000000000000, 214999999998000000, 214999999999000000]
               215000000001000000 1)
      <s timestamp \<lparr>timestamp = 215000000000, datacenterId = 3, workerId = 7, sequence = 0\<rparr>"
    by (simp add: NextID_eval)
  from NextID_rollback [where since = "readings [215000000000000000, 214999999998000000,
      214999999999000000] 215000000001000000" and k = 1, OF reachable_3_7_first rb]
    reachable_3_7_first show ?thesis
    by (simp add: NextID_eval)
qed

text \<open>
  C10. A call of \<open>NextID\<close> that panics leaves the generator as it found it:
  \<open>timestamp\<close> and \<open>sequence\<close> (and the two identities) are unchanged.
\<close>

theorem NextID_panic_keeps_state:
  "NextID since k s = Some (Panicked err, s', k', slept) \<Longrightarrow> s' = s"
  by (auto simp: NextID_def Let_def split: sum.splits option.splits prod.splits)

theorem NextID_panic_keeps_state_witness:
  "NextID (readings [] 1000000000) 0
       \<lparr>timestamp = 1010, datacenterId = 0, workerId = 0, sequence = 5\<rparr>
     = Some (Panicked ''Clock moved backwards. Refusing to generate id for 10 milliseconds'',
         \<lparr>timestamp = 1010, datacenterId = 0, workerId = 0, sequence = 5\<rparr>, 1, [])"
  using NextID_panic_keeps_state [of "readings [] 1000000000" 0
      "\<lparr>timestamp = 1010, datacenterId = 0, workerId = 0, sequence = 5\<rparr>"]
  by (simp add: NextID_eval)

section \<open>The order of the identifiers\<close>








end
